theory Spec2Isabelle
  imports Complex_Main "HOL-Library.Log_Nat" "HOL-Library.Sublist" "HOL-Library.Multiset"
begin

section \<open>Python values\<close>

subsection \<open>Strings\<close>

text \<open>
  A Python \<open>str\<close> is a sequence of code points. It is modelled as a \<^typ>\<open>string\<close> whose
  characters are the code points 0 to 255 (ASCII and Latin-1), so \<^const>\<open>length\<close> is
  Python's \<open>len\<close> and \<open>ord(c) < 128\<close> is a test on the character code.
\<close>

definition ord :: "char \<Rightarrow> nat" where
  "ord c = of_char c"

text \<open>\<open>str.isspace\<close> on one code point below 256: the characters that \<open>strip()\<close> and
  \<open>split()\<close> without arguments treat as white space.\<close>

definition isspace :: "char \<Rightarrow> bool" where
  "isspace c = (let n = ord c in (9 \<le> n \<and> n \<le> 13) \<or> (28 \<le> n \<and> n \<le> 32) \<or> n = 133 \<or> n = 160)"

definition lstrip :: "string \<Rightarrow> string" where
  "lstrip s = dropWhile isspace s"

definition rstrip :: "string \<Rightarrow> string" where
  "rstrip s = rev (dropWhile isspace (rev s))"

definition strip :: "string \<Rightarrow> string" where
  "strip s = rstrip (lstrip s)"

text \<open>\<open>str.lower\<close> on one code point below 256: the ASCII capitals and the Latin-1 capitals
  (all of 192..222 but the multiplication sign 215) move up by 32.\<close>

definition lower_char :: "char \<Rightarrow> char" where
  "lower_char c = (let n = ord c in
     if (65 \<le> n \<and> n \<le> 90) \<or> (192 \<le> n \<and> n \<le> 222 \<and> n \<noteq> 215) then char_of (n + 32) else c)"

definition lower :: "string \<Rightarrow> string" where
  "lower s = map lower_char s"

text \<open>\<open>s.startswith(p)\<close>.\<close>

definition startswith :: "string \<Rightarrow> string \<Rightarrow> bool" where
  "startswith s p = (take (length p) s = p)"

text \<open>\<open>s.split()\<close>: the maximal runs of characters that are not white space. \<open>cur\<close> is the
  run being read.\<close>

fun split_ws :: "string \<Rightarrow> string \<Rightarrow> string list" where
  "split_ws cur [] = (if cur = [] then [] else [cur])"
| "split_ws cur (c # cs) =
     (if isspace c then (if cur = [] then split_ws [] cs else cur # split_ws [] cs)
      else split_ws (cur @ [c]) cs)"

definition py_split :: "string \<Rightarrow> string list" where
  "py_split s = split_ws [] s"

text \<open>\<open>s.split(sep)\<close> for a separator of one character: never the empty list.\<close>

fun split_on :: "char \<Rightarrow> string \<Rightarrow> string \<Rightarrow> string list" where
  "split_on sep cur [] = [cur]"
| "split_on sep cur (c # cs) =
     (if c = sep then cur # split_on sep [] cs else split_on sep (cur @ [c]) cs)"

definition split_sep :: "char \<Rightarrow> string \<Rightarrow> string list" where
  "split_sep sep s = split_on sep [] s"

text \<open>\<open>sep.join(lines)\<close>.\<close>

fun join :: "string \<Rightarrow> string list \<Rightarrow> string" where
  "join sep [] = []"
| "join sep [x] = x"
| "join sep (x # y # ys) = x @ sep @ join sep (y # ys)"

subsection \<open>Floats\<close>

text \<open>
  A Python \<open>float\<close> is an IEEE 754 binary64 number. A finite one is modelled as the
  rational it denotes, and each operation as the exact result rounded to the nearest
  number with a 53-bit significand, ties to even (\<open>fl\<close>). The exponent range is not
  modelled: no computation below overflows, and none rounds a subnormal result.
\<close>

definition round_half_even :: "rat \<Rightarrow> int" where
  "round_half_even x = (let f = \<lfloor>x\<rfloor>; d = x - of_int f in
     if d < 1 / 2 then f else if 1 / 2 < d then f + 1 else if even f then f else f + 1)"

text \<open>The exponent \<open>e\<close> with \<open>2^e \<le> x < 2^(e+1)\<close>, for a positive \<open>x\<close>.\<close>

definition binade :: "rat \<Rightarrow> int" where
  "binade x = (if 1 \<le> x then bitlen \<lfloor>x\<rfloor> - 1 else - bitlen (\<lceil>1 / x\<rceil> - 1))"

text \<open>The distance between neighbouring binary64 numbers at \<open>x\<close>.\<close>

definition ulp :: "rat \<Rightarrow> rat" where
  "ulp x = 2 powi (binade x - 52)"

definition fl :: "rat \<Rightarrow> rat" where
  "fl x = (if x = 0 then 0 else of_int (round_half_even (x / ulp \<bar>x\<bar>)) * ulp \<bar>x\<bar>)"


definition fmul :: "rat \<Rightarrow> rat \<Rightarrow> rat" where
  "fmul a b = fl (a * b)"


definition float_of_int :: "int \<Rightarrow> rat" where
  "float_of_int n = fl (of_int n)"


text \<open>\<open>int(x)\<close> truncates towards zero.\<close>

definition py_int :: "rat \<Rightarrow> int" where
  "py_int x = (if 0 \<le> x then \<lfloor>x\<rfloor> else \<lceil>x\<rceil>)"



subsection \<open>Exceptions\<close>

text \<open>The subclasses of \<open>Exception\<close> that the code can meet. \<open>except Exception\<close> catches
  every one of them.\<close>

datatype exn =
    TypeError
  | AttributeError
  | ValueError
  | ValidationError
  | KeyError
  | JSONDecodeError
  | ProviderError string

subsection \<open>JSON values\<close>

text \<open>What \<open>json.loads\<close> returns: \<open>None\<close>, \<open>bool\<close>, \<open>int\<close>, \<open>float\<close>, \<open>str\<close>, \<open>list\<close>
  and \<open>dict\<close>. A \<open>dict\<close> is an association list in insertion order; its keys are distinct,
  and a lookup takes the first entry of the key.\<close>

datatype json =
    JNull
  | JBool bool
  | JInt int
  | JFloat rat
  | JStr string
  | JList "json list"
  | JDict "(string \<times> json) list"




subsection \<open>Choices of the environment\<close>

text \<open>
  \<open>draw_from rs xs k\<close> takes \<open>k\<close> elements of \<open>xs\<close> at distinct positions: at each step
  the next number of \<open>rs\<close> (0 when \<open>rs\<close> is used up) picks one of the positions that are
  left. Every selection of \<open>k\<close> positions in every order is the result for some \<open>rs\<close>. It
  stands for what the program does not decide itself: the sample of \<open>random.sample\<close> and
  the order in which \<open>asyncio.as_completed\<close> yields.
\<close>

fun draw_from :: "nat list \<Rightarrow> 'a list \<Rightarrow> nat \<Rightarrow> 'a list" where
  "draw_from rs xs 0 = []"
| "draw_from rs [] (Suc k) = []"
| "draw_from rs (x # xs) (Suc k) =
     (let j = (case rs of [] \<Rightarrow> 0 | r # _ \<Rightarrow> r mod length (x # xs))
      in (x # xs) ! j # draw_from (tl rs) (take j (x # xs) @ drop (Suc j) (x # xs)) k)"

text \<open>\<open>random.sample(population, k)\<close> raises \<open>ValueError\<close> when the sample is larger than
  the population.\<close>

definition random_sample :: "nat list \<Rightarrow> 'a list \<Rightarrow> int \<Rightarrow> exn + 'a list" where
  "random_sample rs population k =
     (if k < 0 \<or> int (length population) < k then Inl ValueError
      else Inr (draw_from rs population (nat k)))"

section \<open>models.py\<close>


record Skill =
  name :: string
  content :: string
  source :: string
  tags :: "string list"
  metadata :: "(string \<times> json) list"

text \<open>\<open>Skill.id\<close>: \<open>xxhash.xxh64(self.content.strip().lower()).hexdigest()\<close>. The hash is
  the library's; it is the parameter \<open>xxh64\<close>, from the text to its hexadecimal digest.\<close>

definition normalized_content :: "Skill \<Rightarrow> string" where
  "normalized_content s = lower (strip (content s))"

definition Skill_id :: "(string \<Rightarrow> string) \<Rightarrow> Skill \<Rightarrow> string" where
  "Skill_id xxh64 s = xxh64 (normalized_content s)"








section \<open>llm/base.py\<close>

text \<open>\<open>_extract_json\<close>. \<open>json.loads\<close> is the parameter \<open>loads\<close>.\<close>

definition extract_json :: "(string \<Rightarrow> exn + json) \<Rightarrow> string \<Rightarrow> exn + json" where
  "extract_json loads text0 =
     (let text = strip text0;
          text = (if startswith text ''```''
                  then (let lines = split_sep (CHR 0x0A) text;
                            lines = drop 1 lines;
                            lines = (if lines \<noteq> [] \<and> strip (last lines) = ''```''
                                     then butlast lines else lines)
                        in strip (join [CHR 0x0A] lines))
                  else text)
      in loads text)"

section \<open>synthesis/prompts.py\<close>







section \<open>synthesis/synthesizer.py\<close>
















section \<open>filters/llm_filter.py\<close>

record LLMQualityConfig =
  enabled :: bool
  sample_ratio :: rat
  min_overall_score :: rat

text \<open>
  The samples are objects: the list holds references, and \<open>filter\<close> writes \<open>quality_score\<close>
  into the objects it has graded. A reference is a number and the heap gives the object
  of each reference; \<open>id(sample)\<close> is the reference.
\<close>

type_synonym ref = nat


text \<open>The number of samples to grade is \<open>min(sample_count, len(samples))\<close>, with
  \<open>sample_count = max(1, int(len(samples) * sample_ratio))\<close>.\<close>

definition sample_count :: "LLMQualityConfig \<Rightarrow> nat \<Rightarrow> int" where
  "sample_count cfg n = max 1 (py_int (fmul (float_of_int (int n)) (sample_ratio cfg)))"

definition to_evaluate :: "LLMQualityConfig \<Rightarrow> nat list \<Rightarrow> ref list \<Rightarrow> exn + ref list" where
  "to_evaluate cfg rs samples =
     random_sample rs samples (min (sample_count cfg (length samples)) (int (length samples)))"










section \<open>filters/heuristic.py\<close>

record SkillFilterConfig =
  min_length :: int
  max_length :: int
  min_words :: int
  ascii_ratio :: rat
  blacklist_patterns :: "string list"

text \<open>\<open>re.compile(re.escape(p), re.IGNORECASE).search(content)\<close>: the text \<open>p\<close> occurs in
  \<open>content\<close>, letter case apart.\<close>

fun contains :: "string \<Rightarrow> string \<Rightarrow> bool" where
  "contains p [] = (p = [])"
| "contains p (c # cs) = (startswith (c # cs) p \<or> contains p cs)"

definition blacklist_search :: "string \<Rightarrow> string \<Rightarrow> bool" where
  "blacklist_search p text = contains (lower p) (lower text)"

definition ascii_count :: "string \<Rightarrow> nat" where
  "ascii_count text = length (filter (\<lambda>c. ord c < 128) text)"

text \<open>\<open>HeuristicFilter._accept\<close>.\<close>

definition accept :: "SkillFilterConfig \<Rightarrow> Skill \<Rightarrow> bool" where
  "accept cfg skill =
     (let text = strip (content skill) in
      if int (length text) < min_length cfg \<or> max_length cfg < int (length text) then False
      else if int (length (py_split text)) < min_words cfg then False
      else if text \<noteq> [] \<and> fl (of_nat (ascii_count text) / of_nat (length text)) < ascii_ratio cfg then False
      else if list_ex (\<lambda>p. blacklist_search p text) (blacklist_patterns cfg) then False
      else True)"

definition HeuristicFilter_filter :: "SkillFilterConfig \<Rightarrow> Skill list \<Rightarrow> Skill list" where
  "HeuristicFilter_filter cfg skills = filter (accept cfg) skills"

text \<open>The defaults of \<open>SkillFilterConfig\<close>; 0.7 is the float nearest to 7/10.\<close>

definition SkillFilterConfig_default :: SkillFilterConfig where
  "SkillFilterConfig_default =
     \<lparr>min_length = 50, max_length = 10000, min_words = 10, ascii_ratio = fl (7 / 10),
      blacklist_patterns = []\<rparr>"

section \<open>collectors/__init__.py\<close>

text \<open>\<open>_run\<close>: a collector that raises contributes no skill.\<close>

definition run_collector :: "exn + Skill list \<Rightarrow> Skill list" where
  "run_collector r = (case r of Inl e \<Rightarrow> [] | Inr skills \<Rightarrow> skills)"

text \<open>The deduplication loop of \<open>collect_all\<close>, with its two variables \<open>seen\<close> and
  \<open>unique\<close>.\<close>

fun dedup_loop :: "(string \<Rightarrow> string) \<Rightarrow> string set \<Rightarrow> Skill list \<Rightarrow> Skill list \<Rightarrow> Skill list" where
  "dedup_loop xxh64 seen unique [] = unique"
| "dedup_loop xxh64 seen unique (skill # rest) =
     (if Skill_id xxh64 skill \<notin> seen
      then dedup_loop xxh64 (insert (Skill_id xxh64 skill) seen) (unique @ [skill]) rest
      else dedup_loop xxh64 seen unique rest)"

text \<open>\<open>collect_all\<close>, from the outcome of each collector's \<open>collect()\<close> in the order of the
  collectors (\<open>asyncio.gather\<close> keeps that order).\<close>

definition collect_all :: "(string \<Rightarrow> string) \<Rightarrow> (exn + Skill list) list \<Rightarrow> Skill list" where
  "collect_all xxh64 outcomes =
     (let results = map run_collector outcomes;
          all_skills = concat results
      in dedup_loop xxh64 {} [] all_skills)"

section \<open>Notions of the properties\<close>





definition fence_wrapped :: "string \<Rightarrow> string" where
  "fence_wrapped t = ''```json'' @ [CHR 0x0A] @ t @ [CHR 0x0A] @ ''```''"








section \<open>Example data\<close>

definition ex_poet :: Skill where
  "ex_poet = \<lparr>name = ''Poet'', content = ''  Write a Poem '', source = ''awesome-chatgpt-prompts'',
     tags = [''prompt''], metadata = []\<rparr>"

definition ex_poet2 :: Skill where
  "ex_poet2 = \<lparr>name = ''poet.md'', content = ''write a poem'', source = ''github:acme/skills'',
     tags = [], metadata = []\<rparr>"

definition ex_review :: Skill where
  "ex_review = \<lparr>name = ''Reviewer'', content = ''Review my code'', source = ''github:acme/skills'',
     tags = [], metadata = []\<rparr>"

definition ex_outcomes :: "(exn + Skill list) list" where
  "ex_outcomes = [Inr [ex_poet, ex_review], Inl (ProviderError ''timeout''), Inr [ex_poet2]]"

definition ex_quality_cfg :: LLMQualityConfig where
  "ex_quality_cfg = \<lparr>enabled = True, sample_ratio = 1 / 2, min_overall_score = 7 / 2\<rparr>"

definition ex_refs :: "ref list" where
  "ex_refs = [10, 11, 12, 13, 14, 15, 16]"

definition ex_draws :: "nat list" where
  "ex_draws = [3, 0, 4]"







definition ex_loads :: "string \<Rightarrow> exn + json" where
  \<open>ex_loads s =
     (if s = ''{"samples":
 []}'' then Inr (JDict [(''samples'', JList [])])
      else Inl JSONDecodeError)\<close>

definition ex_reply :: string where
  \<open>ex_reply = ''  {"samples":
 []}
''\<close>











section \<open>Properties\<close>

subsection \<open>Collecting and deduplicating skills\<close>

lemma dedup_loop_append:
  "dedup_loop H seen unique xs = unique @ dedup_loop H seen [] xs"
proof (induction xs arbitrary: seen unique)
  case Nil
  show ?case by simp
next
  case (Cons x xs)
  show ?case
    using Cons.IH [of "insert (Skill_id H x) seen" "unique @ [x]"]
      Cons.IH [of "insert (Skill_id H x) seen" "[x]"] Cons.IH [of seen unique]
    by simp
qed

lemma dedup_loop_Cons:
  "dedup_loop H seen [] (x # xs) =
     (if Skill_id H x \<notin> seen then x # dedup_loop H (insert (Skill_id H x) seen) [] xs
      else dedup_loop H seen [] xs)"
  using dedup_loop_append [of H "insert (Skill_id H x) seen" "[x]" xs] by simp

lemma dedup_loop_subseq: "subseq (dedup_loop H seen [] xs) xs"
  by (induction xs arbitrary: seen) (auto simp add: dedup_loop_Cons simp del: dedup_loop.simps(2))

lemma dedup_loop_ids:
  "Skill_id H ` set (dedup_loop H seen [] xs) = Skill_id H ` set xs - seen"
  by (induction xs arbitrary: seen) (auto simp add: dedup_loop_Cons simp del: dedup_loop.simps(2))

lemma dedup_loop_distinct: "distinct (map (Skill_id H) (dedup_loop H seen [] xs))"
proof (induction xs arbitrary: seen)
  case Nil
  show ?case by simp
next
  case (Cons x xs)
  have "Skill_id H x \<notin> Skill_id H ` set (dedup_loop H (insert (Skill_id H x) seen) [] xs)"
    by (simp add: dedup_loop_ids)
  with Cons.IH show ?case
    by (simp add: dedup_loop_Cons del: dedup_loop.simps(2))
qed

lemma dedup_loop_first:
  "x \<in> set (dedup_loop H seen [] xs) \<Longrightarrow> find (\<lambda>y. Skill_id H y = Skill_id H x) xs = Some x"
proof (induction xs arbitrary: seen)
  case Nil
  then show ?case by simp
next
  case (Cons y ys)
  show ?case
  proof (cases "Skill_id H y \<in> seen")
    case True
    with Cons.prems have in_rest: "x \<in> set (dedup_loop H seen [] ys)"
      by (simp add: dedup_loop_Cons del: dedup_loop.simps(2))
    then have "Skill_id H x \<in> Skill_id H ` set ys - seen"
      using dedup_loop_ids [of H seen ys] by blast
    with True have "Skill_id H y \<noteq> Skill_id H x" by auto
    with Cons.IH [OF in_rest] show ?thesis by simp
  next
    case False
    with Cons.prems
    have "x = y \<or> x \<in> set (dedup_loop H (insert (Skill_id H y) seen) [] ys)"
      by (simp add: dedup_loop_Cons del: dedup_loop.simps(2))
    then show ?thesis
    proof
      assume "x = y"
      then show ?thesis by simp
    next
      assume in_rest: "x \<in> set (dedup_loop H (insert (Skill_id H y) seen) [] ys)"
      then have "Skill_id H x \<in> Skill_id H ` set ys - insert (Skill_id H y) seen"
        using dedup_loop_ids [of H "insert (Skill_id H y) seen" ys] by blast
      then have "Skill_id H y \<noteq> Skill_id H x" by auto
      with Cons.IH [OF in_rest] show ?thesis by simp
    qed
  qed
qed


text \<open>
  C10. Whatever the collectors return, \<open>collect_all\<close> yields a subsequence of the
  concatenated results, in their order, that holds each content-hash id once, and the skill
  kept for an id is the first one with that id in the concatenation: among duplicates the
  skill of the earlier collector survives, and every collected id is represented.
\<close>

theorem collect_all_first_occurrence:
  fixes xxh64 :: "string \<Rightarrow> string" and outcomes :: "(exn + Skill list) list"
  defines "all_skills \<equiv> concat (map run_collector outcomes)"
  defines "unique \<equiv> collect_all xxh64 outcomes"
  shows "subseq unique all_skills
    \<and> distinct (map (Skill_id xxh64) unique)
    \<and> (\<forall>x\<in>set unique. find (\<lambda>y. Skill_id xxh64 y = Skill_id xxh64 x) all_skills = Some x)
    \<and> (\<forall>s\<in>set all_skills. \<exists>x\<in>set unique. Skill_id xxh64 x = Skill_id xxh64 s)"
proof -
  have u: "unique = dedup_loop xxh64 {} [] all_skills"
    by (simp add: unique_def all_skills_def collect_all_def)
  have "\<forall>s\<in>set all_skills. \<exists>x\<in>set unique. Skill_id xxh64 x = Skill_id xxh64 s"
  proof
    fix s assume "s \<in> set all_skills"
    then have "Skill_id xxh64 s \<in> Skill_id xxh64 ` set all_skills - {}" by simp
    then have "Skill_id xxh64 s \<in> Skill_id xxh64 ` set unique"
      unfolding u dedup_loop_ids .
    then show "\<exists>x\<in>set unique. Skill_id xxh64 x = Skill_id xxh64 s" by auto
  qed
  then show ?thesis
    unfolding u by (simp add: dedup_loop_subseq dedup_loop_distinct dedup_loop_first)
qed


theorem collect_all_first_occurrence_witness:
  "ex_poet \<in> set (collect_all (\<lambda>s. s) ex_outcomes)
   \<and> find (\<lambda>y. Skill_id (\<lambda>s. s) y = Skill_id (\<lambda>s. s) ex_poet)
         (concat (map run_collector ex_outcomes)) = Some ex_poet
   \<and> ex_poet2 \<in> set (concat (map run_collector ex_outcomes))
   \<and> (\<exists>x\<in>set (collect_all (\<lambda>s. s) ex_outcomes).
         Skill_id (\<lambda>s. s) x = Skill_id (\<lambda>s. s) ex_poet2)
   \<and> collect_all (\<lambda>s. s) ex_outcomes = [ex_poet, ex_review]"
proof -
  note T = collect_all_first_occurrence [of "\<lambda>s. s" ex_outcomes]
  have m1: "ex_poet \<in> set (collect_all (\<lambda>s. s) ex_outcomes)" by code_simp
  have m2: "ex_poet2 \<in> set (concat (map run_collector ex_outcomes))" by code_simp
  have e: "collect_all (\<lambda>s. s) ex_outcomes = [ex_poet, ex_review]" by code_simp
  from T m1 have "find (\<lambda>y. Skill_id (\<lambda>s. s) y = Skill_id (\<lambda>s. s) ex_poet)
         (concat (map run_collector ex_outcomes)) = Some ex_poet" by blast
  moreover from T m2 have "\<exists>x\<in>set (collect_all (\<lambda>s. s) ex_outcomes).
         Skill_id (\<lambda>s. s) x = Skill_id (\<lambda>s. s) ex_poet2" by blast
  ultimately show ?thesis using m1 m2 e by blast
qed



subsection \<open>Floating point\<close>

lemma round_half_even_ge: "\<lfloor>y\<rfloor> \<le> round_half_even y"
  by (simp add: round_half_even_def Let_def)

lemma round_half_even_le: "round_half_even y \<le> \<lceil>y\<rceil>"
  unfolding round_half_even_def Let_def
  by (auto simp: ceiling_altdef)


lemma binade_le_52:
  assumes "0 < x" "x < 2 ^ 53"
  shows "binade x \<le> 52"
proof (cases "1 \<le> x")
  case True
  have "\<lfloor>x\<rfloor> < 2 ^ 53"
    using assms(2) by (simp add: floor_less_iff)
  then have "bitlen \<lfloor>x\<rfloor> \<le> 53"
    by (simp add: bitlen_le_iff_power)
  with True show ?thesis by (simp add: binade_def)
next
  case False
  have "0 \<le> bitlen (\<lceil>1 / x\<rceil> - 1)" by (rule bitlen_nonneg)
  with False show ?thesis by (simp add: binade_def)
qed





lemma fl_sandwich:
  assumes "0 \<le> x" "x < 2 ^ 53"
  shows "of_int \<lfloor>x\<rfloor> \<le> fl x \<and> fl x \<le> of_int \<lceil>x\<rceil>"
proof (cases "x = 0")
  case True
  then show ?thesis by (simp add: fl_def)
next
  case False
  with assms have pos: "0 < x" by simp
  define j where "j = nat (52 - binade x)"
  have e: "binade x - 52 \<le> 0" using binade_le_52 [OF pos assms(2)] by simp
  have u: "ulp \<bar>x\<bar> = 1 / 2 ^ j"
  proof (cases "binade x - 52 = 0")
    case True
    then show ?thesis using pos by (simp add: ulp_def j_def)
  next
    case False
    with e have "binade x - 52 < 0" by simp
    then show ?thesis using pos
      by (simp add: ulp_def j_def power_int_def nat_diff_distrib field_simps)
  qed
  have q: "x / ulp \<bar>x\<bar> = x * 2 ^ j" by (simp add: u)
  have lo: "\<lfloor>x\<rfloor> * 2 ^ j \<le> round_half_even (x * 2 ^ j)"
  proof -
    have "of_int (\<lfloor>x\<rfloor> * 2 ^ j) \<le> x * 2 ^ j" by (simp add: mult_right_mono)
    then have "\<lfloor>x\<rfloor> * 2 ^ j \<le> \<lfloor>x * 2 ^ j\<rfloor>" by (simp only: le_floor_iff)
    with round_half_even_ge [of "x * 2 ^ j"] show ?thesis by linarith
  qed
  have hi: "round_half_even (x * 2 ^ j) \<le> \<lceil>x\<rceil> * 2 ^ j"
  proof -
    have "x * 2 ^ j \<le> of_int (\<lceil>x\<rceil> * 2 ^ j)" by (simp add: mult_right_mono)
    then have "\<lceil>x * 2 ^ j\<rceil> \<le> \<lceil>x\<rceil> * 2 ^ j" by (simp only: ceiling_le_iff)
    with round_half_even_le [of "x * 2 ^ j"] show ?thesis by linarith
  qed
  have f: "fl x = of_int (round_half_even (x * 2 ^ j)) / 2 ^ j"
    using False by (simp add: fl_def q) (simp add: u)
  have "(of_int \<lfloor>x\<rfloor> :: rat) = of_int (\<lfloor>x\<rfloor> * 2 ^ j) / 2 ^ j" by simp
  also have "\<dots> \<le> of_int (round_half_even (x * 2 ^ j)) / 2 ^ j"
    using lo by (intro divide_right_mono) (simp_all only: of_int_le_iff zero_le_power zero_le_numeral)
  finally have A: "of_int \<lfloor>x\<rfloor> \<le> fl x" by (simp only: f)
  have "of_int (round_half_even (x * 2 ^ j)) / 2 ^ j \<le> (of_int (\<lceil>x\<rceil> * 2 ^ j) :: rat) / 2 ^ j"
    using hi by (intro divide_right_mono) (simp_all only: of_int_le_iff zero_le_power zero_le_numeral)
  also have "\<dots> = of_int \<lceil>x\<rceil>" by simp
  finally have B: "fl x \<le> of_int \<lceil>x\<rceil>" by (simp only: f)
  from A B show ?thesis ..
qed

text \<open>Between two integers a float stays: the bounds of an interval with integer ends
  survive the rounding.\<close>

lemma fl_between:
  assumes "of_int lo \<le> x" "x \<le> of_int hi" "0 \<le> lo" "hi < 2 ^ 53"
  shows "of_int lo \<le> fl x \<and> fl x \<le> of_int hi"
proof -
  have x0: "0 \<le> x" using assms(1,3) by (metis of_int_0_le_iff order_trans)
  have "x \<le> of_int hi" by fact
  also have "(of_int hi :: rat) < of_int (2 ^ 53)" using assms(4) by (simp only: of_int_less_iff)
  finally have x53: "x < 2 ^ 53" by simp
  have "lo \<le> \<lfloor>x\<rfloor>" using assms(1) by (simp add: le_floor_iff)
  then have a: "(of_int lo :: rat) \<le> of_int \<lfloor>x\<rfloor>" by (simp only: of_int_le_iff)
  have "\<lceil>x\<rceil> \<le> hi" using assms(2) by (simp add: ceiling_le_iff)
  then have b: "(of_int \<lceil>x\<rceil> :: rat) \<le> of_int hi" by (simp only: of_int_le_iff)
  from fl_sandwich [OF x0 x53] a b show ?thesis by linarith
qed

lemma fl_of_int:
  assumes "0 \<le> n" "n < 2 ^ 53"
  shows "fl (of_int n) = of_int n"
  using fl_between [of n "of_int n" n] assms by simp

subsection \<open>The quality verdict\<close>









subsection \<open>The number of samples the judge grades\<close>

lemma length_draw_from: "length (draw_from rs xs k) = min k (length xs)"
proof (induction rs xs k rule: draw_from.induct)
  case (3 rs x xs k)
  define j where "j = (case rs of [] \<Rightarrow> 0 | r # _ \<Rightarrow> r mod length (x # xs))"
  have j: "j < length (x # xs)"
    unfolding j_def by (cases rs) simp_all
  then have "length (take j (x # xs) @ drop (Suc j) (x # xs)) = length xs"
    by (simp add: min_def)
  with "3.IH" [OF j_def] have "length (draw_from (tl rs) (take j (x # xs) @ drop (Suc j) (x # xs)) k)
      = min k (length xs)"
    by simp
  then show ?case
    by (simp only: draw_from.simps Let_def j_def [symmetric])
       (simp add: min_def)
qed simp_all

lemma random_sample_Inr:
  assumes "0 \<le> k" "k \<le> int (length xs)"
  shows "\<exists>chosen. random_sample rs xs k = Inr chosen \<and> int (length chosen) = k"
  using assms by (simp add: random_sample_def length_draw_from)

text \<open>
  C2, amended. For a non-empty list of \<open>total\<close> samples and a ratio in (0,1], the judge
  grades \<open>max(1, int(total * sample_ratio))\<close> samples, never more than \<open>total\<close> and at
  least one: the float product is truncated, not rounded up. The number lies between
  \<open>max(1, floor(ratio * total))\<close> and \<open>max(1, ceil(ratio * total))\<close> of the exact product.
\<close>

theorem to_evaluate_count:
  assumes "samples \<noteq> []" and "0 < sample_ratio cfg" and "sample_ratio cfg \<le> 1"
  shows "\<exists>chosen. to_evaluate cfg rs samples = Inr chosen
    \<and> int (length chosen)
        = min (max 1 (py_int (fmul (float_of_int (int (length samples))) (sample_ratio cfg))))
              (int (length samples))
    \<and> 1 \<le> length chosen \<and> length chosen \<le> length samples
    \<and> (length samples < 2 ^ 53 \<longrightarrow>
          int (length chosen) = max 1 \<lfloor>fl (of_nat (length samples) * sample_ratio cfg)\<rfloor>
        \<and> max 1 \<lfloor>of_nat (length samples) * sample_ratio cfg\<rfloor> \<le> int (length chosen)
        \<and> int (length chosen) \<le> max 1 \<lceil>of_nat (length samples) * sample_ratio cfg\<rceil>)"
proof -
  define n where "n = length samples"
  define r where "r = sample_ratio cfg"
  have r01: "0 < r" "r \<le> 1" using assms(2,3) by (simp_all add: r_def)
  define k where "k = min (sample_count cfg n) (int n)"
  have n1: "1 \<le> n" using assms(1) by (cases samples) (simp_all add: n_def)
  have sc: "1 \<le> sample_count cfg n" by (simp add: sample_count_def)
  have k: "1 \<le> k" "k \<le> int n" using n1 sc by (simp_all add: k_def)
  from random_sample_Inr [of k samples rs] k
  obtain chosen where c: "random_sample rs samples k = Inr chosen" "int (length chosen) = k"
    by (auto simp: n_def)
  have te: "to_evaluate cfg rs samples = Inr chosen"
    using c(1) by (simp add: to_evaluate_def k_def n_def)
  have exact: "k = max 1 \<lfloor>fl (of_nat n * r)\<rfloor>
      \<and> max 1 \<lfloor>of_nat n * r\<rfloor> \<le> k \<and> k \<le> max 1 \<lceil>of_nat n * r\<rceil>"
    if small: "n < 2 ^ 53"
  proof -
    let ?x = "(of_nat n :: rat) * r"
    have "int n < 2 ^ 53" using small by (metis of_nat_less_iff of_nat_numeral of_nat_power)
    then have fn: "float_of_int (int n) = of_nat n"
      using fl_of_int [of "int n"] by (simp add: float_of_int_def)
    have x0: "0 \<le> ?x" using r01 by simp
    have "?x \<le> of_nat n * 1"
      using r01 by (intro mult_left_mono) simp_all
    then have xn: "?x \<le> of_int (int n)" by simp
    have b: "of_int 0 \<le> fl ?x \<and> fl ?x \<le> of_int (int n)"
      using x0 xn \<open>int n < 2 ^ 53\<close> by (intro fl_between) simp_all
    have x53: "?x < 2 ^ 53"
    proof -
      have "(of_int (int n) :: rat) < of_int (2 ^ 53)"
        using \<open>int n < 2 ^ 53\<close> by (simp only: of_int_less_iff)
      with xn show ?thesis by simp
    qed
    note sw = fl_sandwich [OF x0 x53]
    have p: "py_int (fl ?x) = \<lfloor>fl ?x\<rfloor>" using b by (simp add: py_int_def)
    have f1: "\<lfloor>?x\<rfloor> \<le> \<lfloor>fl ?x\<rfloor>" using sw by (simp add: le_floor_iff)
    have f2: "\<lfloor>fl ?x\<rfloor> \<le> \<lceil>?x\<rceil>"
      using sw by (meson floor_le_iff le_less_trans less_add_one of_int_floor_le order_trans
          floor_mono floor_of_int)
    have f3: "\<lfloor>fl ?x\<rfloor> \<le> int n" using b by (simp add: floor_le_iff)
    have "sample_count cfg n = max 1 (py_int (fl ?x))"
      by (simp only: sample_count_def fmul_def fn r_def)
    then have s: "sample_count cfg n = max 1 \<lfloor>fl ?x\<rfloor>"
      by (simp only: p)
    have "k = max 1 \<lfloor>fl ?x\<rfloor>" using f3 n1 by (simp add: k_def s)
    with f1 f2 show ?thesis by linarith
  qed
  have "length chosen \<le> length samples \<and> 1 \<le> length chosen"
    using c(2) k by (simp add: n_def)
  moreover have "int (length chosen)
        = min (max 1 (py_int (fmul (float_of_int (int (length samples))) (sample_ratio cfg))))
              (int (length samples))"
    using c(2) by (simp add: k_def n_def sample_count_def)
  moreover have "length samples < 2 ^ 53 \<longrightarrow>
          int (length chosen) = max 1 \<lfloor>fl (of_nat (length samples) * sample_ratio cfg)\<rfloor>
        \<and> max 1 \<lfloor>of_nat (length samples) * sample_ratio cfg\<rfloor> \<le> int (length chosen)
        \<and> int (length chosen) \<le> max 1 \<lceil>of_nat (length samples) * sample_ratio cfg\<rceil>"
    using exact unfolding c(2) n_def r_def by blast
  ultimately show ?thesis using te by blast
qed

theorem to_evaluate_count_witness:
  "ex_refs \<noteq> [] \<and> 0 < sample_ratio ex_quality_cfg \<and> sample_ratio ex_quality_cfg \<le> 1
   \<and> length ex_refs < 2 ^ 53
   \<and> to_evaluate ex_quality_cfg ex_draws ex_refs = Inr [13, 10, 16]
   \<and> (\<exists>chosen. to_evaluate ex_quality_cfg ex_draws ex_refs = Inr chosen
       \<and> int (length chosen) = max 1 \<lfloor>fl (of_nat (length ex_refs) * sample_ratio ex_quality_cfg)\<rfloor>
       \<and> 1 \<le> length chosen \<and> length chosen \<le> length ex_refs)"
proof -
  have h1: "ex_refs \<noteq> []" by (simp add: ex_refs_def)
  have h2: "0 < sample_ratio ex_quality_cfg" by (simp add: ex_quality_cfg_def)
  have h3: "sample_ratio ex_quality_cfg \<le> 1" by (simp add: ex_quality_cfg_def)
  have h4: "length ex_refs < 2 ^ 53" by (simp add: ex_refs_def)
  have e: "to_evaluate ex_quality_cfg ex_draws ex_refs = Inr [13, 10, 16]" by code_simp
  from to_evaluate_count [OF h1 h2 h3, of ex_draws] h4
  have "\<exists>chosen. to_evaluate ex_quality_cfg ex_draws ex_refs = Inr chosen
       \<and> int (length chosen) = max 1 \<lfloor>fl (of_nat (length ex_refs) * sample_ratio ex_quality_cfg)\<rfloor>
       \<and> 1 \<le> length chosen \<and> length chosen \<le> length ex_refs"
    by blast
  with h1 h2 h3 h4 e show ?thesis by blast
qed

theorem to_evaluate_count_counterexample:
  "to_evaluate \<lparr>enabled = True, sample_ratio = 1 / 2, min_overall_score = 7 / 2\<rparr> [] [0, 1, 2]
     = Inr [0]
   \<and> max 1 \<lceil>(1 / 2 :: rat) * of_nat (length [0, 1, 2 :: ref])\<rceil> = 2"
proof -
  have "to_evaluate \<lparr>enabled = True, sample_ratio = 1 / 2, min_overall_score = 7 / 2\<rparr> [] [0, 1, 2]
     = Inr [0]"
    by code_simp
  moreover have "max 1 \<lceil>(1 / 2 :: rat) * of_nat (length [0, 1, 2 :: ref])\<rceil> = 2"
    by (simp add: ceiling_eq_iff)
  ultimately show ?thesis ..
qed







subsection \<open>What the judge removes\<close>












subsection \<open>The statistics when nothing was graded\<close>




subsection \<open>Extracting JSON from a reply\<close>

lemma split_on_no_sep:
  "sep \<notin> set s \<Longrightarrow> split_on sep cur s = [cur @ s]"
  by (induction s arbitrary: cur) auto

lemma split_on_append:
  "sep \<notin> set a \<Longrightarrow> split_on sep cur (a @ sep # s) = (cur @ a) # split_on sep [] s"
  by (induction a arbitrary: cur) auto

lemma split_on_snoc:
  "sep \<notin> set b \<Longrightarrow> split_on sep cur (s @ sep # b) = split_on sep cur s @ [b]"
  by (induction s arbitrary: cur) (simp_all add: split_on_no_sep)

lemma split_on_not_Nil: "split_on sep cur s \<noteq> []"
  by (induction s arbitrary: cur) simp_all

lemma join_Cons: "ys \<noteq> [] \<Longrightarrow> join sep (x # ys) = x @ sep @ join sep ys"
  by (cases ys) simp_all

lemma join_split_on: "join [sep] (split_on sep cur s) = cur @ s"
  by (induction s arbitrary: cur) (simp_all add: join_Cons split_on_not_Nil)

lemma strip_id:
  assumes "s \<noteq> []" "\<not> isspace (hd s)" "\<not> isspace (last s)"
  shows "strip s = s"
proof -
  have l: "lstrip s = s"
    using assms(1,2) by (cases s) (simp_all add: lstrip_def)
  have "dropWhile isspace (rev s) = rev s"
    using assms(1,3) by (cases "rev s") (simp_all add: last_rev [symmetric] hd_rev)
  then show ?thesis by (simp add: strip_def rstrip_def l)
qed

lemma extract_json_fence_wrapped:
  "extract_json loads (fence_wrapped t) = loads (strip t)"
proof -
  let ?nl = "CHR 0x0A"
  let ?w = "fence_wrapped t"
  have ns: "\<not> isspace (CHR ''`'')" by code_simp
  have w: "?w \<noteq> []" "hd ?w = CHR ''`''" "last ?w = CHR ''`''"
    by (simp_all add: fence_wrapped_def)
  have s: "strip ?w = ?w" using w ns by (intro strip_id) simp_all
  have st: "startswith ?w ''```''" by (simp add: startswith_def fence_wrapped_def)
  have n1: "?nl \<notin> set ''```json''" and n2: "?nl \<notin> set ''```''" by simp_all
  have "split_sep ?nl ?w = ''```json'' # split_on ?nl [] (t @ ?nl # ''```'')"
    unfolding split_sep_def fence_wrapped_def
    using split_on_append [OF n1, of "[]" "t @ ?nl # ''```''"] by simp
  also have "split_on ?nl [] (t @ ?nl # ''```'') = split_on ?nl [] t @ [''```'']"
    by (rule split_on_snoc [OF n2])
  finally have lines: "drop 1 (split_sep ?nl ?w) = split_on ?nl [] t @ [''```'']" by simp
  have fence: "strip ''```'' = ''```''" by code_simp
  have "join [?nl] (butlast (split_on ?nl [] t @ [''```''])) = t"
    by (simp add: join_split_on)
  then show ?thesis
    unfolding extract_json_def Let_def s lines using st fence by simp
qed

lemma extract_json_plain:
  "\<not> startswith (strip t) ''```'' \<Longrightarrow> extract_json loads t = loads (strip t)"
  by (simp add: extract_json_def Let_def)

text \<open>
  C5. A text that parses as JSON begins, once trimmed, with the first character of a JSON
  value, never with a code fence. For every such text \<open>t\<close>, extracting from \<open>t\<close> wrapped
  in one fenced block gives what extracting from \<open>t\<close> itself gives: both parse the
  trimmed \<open>t\<close>. One wrapper only is removed: of a text wrapped twice the inner wrapper
  is left for the parser.
\<close>

theorem extract_json_fenced:
  "(\<not> startswith (strip t) ''```'' \<longrightarrow>
      extract_json loads (''```json'' @ [CHR 0x0A] @ t @ [CHR 0x0A] @ ''```'') = extract_json loads t
    \<and> extract_json loads t = loads (strip t))
   \<and> extract_json loads (fence_wrapped (fence_wrapped t)) = loads (fence_wrapped t)"
proof -
  have ns: "\<not> isspace (CHR ''`'')" by code_simp
  have "fence_wrapped t \<noteq> []" "hd (fence_wrapped t) = CHR ''`''" "last (fence_wrapped t) = CHR ''`''"
    by (simp_all add: fence_wrapped_def)
  then have "strip (fence_wrapped t) = fence_wrapped t"
    using ns by (intro strip_id) simp_all
  then have "extract_json loads (fence_wrapped (fence_wrapped t)) = loads (fence_wrapped t)"
    by (simp add: extract_json_fence_wrapped)
  then show ?thesis
    using extract_json_fence_wrapped [of loads t] extract_json_plain [of t loads]
    by (simp add: fence_wrapped_def)
qed

theorem extract_json_fenced_witness:
  "\<not> startswith (strip ex_reply) ''```''
   \<and> extract_json ex_loads (''```json'' @ [CHR 0x0A] @ ex_reply @ [CHR 0x0A] @ ''```'')
       = Inr (JDict [(''samples'', JList [])])
   \<and> extract_json ex_loads ex_reply = Inr (JDict [(''samples'', JList [])])"
proof -
  have n: "\<not> startswith (strip ex_reply) ''```''" by code_simp
  have l: "loads (strip ex_reply) = Inr (JDict [(''samples'', JList [])])"
    if "loads = ex_loads" for loads
    unfolding that by code_simp
  from extract_json_fenced [of ex_reply ex_loads] n l [OF refl] show ?thesis by simp
qed

subsection \<open>Parsing the reply of the client\<close>


























subsection \<open>Failures of single work items\<close>









end
